theory Spec2Isabelle
  imports Complex_Main
begin

section \<open>The arena simulator of simulator.py\<close>

text \<open>
  The class \<open>ArenaEnv\<close> keeps an agent inside a regular polygon of walls and draws,
  at every \<open>step\<close>, a binary retina image by casting one ray per retina column.
  Python floats and numpy float arrays are modelled as real numbers, numpy integer arrays
  as unbounded integers; the rounding of floating-point arithmetic, infinities and NaN
  are outside this model.  An exception is a value of type \<open>error\<close>.
\<close>

subsection \<open>Numbers\<close>

datatype error = ZeroDivisionError | IndexError | ValueError | GeometryError

text \<open>\<open>x % (2 * np.pi)\<close>: the remainder has the sign of the divisor.\<close>

definition fmod2pi :: "real \<Rightarrow> real" where
  "fmod2pi x = x - 2 * pi * of_int \<lfloor>x / (2 * pi)\<rfloor>"

text \<open>\<open>.astype(int)\<close> on a float array drops the fractional part (towards zero).\<close>

definition astype_int :: "real \<Rightarrow> int" where
  "astype_int x = (if 0 \<le> x then \<lfloor>x\<rfloor> else \<lceil>x\<rceil>)"

text \<open>\<open>np.arctan2(dy, dx)\<close>, the angle of the vector \<open>(dx, dy)\<close> in \<open>(-pi, pi]\<close>.\<close>

definition arctan2 :: "real \<Rightarrow> real \<Rightarrow> real" where
  "arctan2 dy dx =
     (if 0 < dx then arctan (dy / dx)
      else if dx < 0 then (if 0 \<le> dy then arctan (dy / dx) + pi else arctan (dy / dx) - pi)
      else if 0 < dy then pi / 2
      else if dy < 0 then - (pi / 2)
      else 0)"

subsection \<open>Plane geometry: the operations used from shapely\<close>

type_synonym point = "real \<times> real"

definition padd :: "point \<Rightarrow> point \<Rightarrow> point" where
  "padd p q = (fst p + fst q, snd p + snd q)"

definition psub :: "point \<Rightarrow> point \<Rightarrow> point" where
  "psub p q = (fst p - fst q, snd p - snd q)"

definition pscale :: "real \<Rightarrow> point \<Rightarrow> point" where
  "pscale t p = (t * fst p, t * snd p)"

definition pcross :: "point \<Rightarrow> point \<Rightarrow> real" where
  "pcross p q = fst p * snd q - snd p * fst q"

definition pdot :: "point \<Rightarrow> point \<Rightarrow> real" where
  "pdot p q = fst p * fst q + snd p * snd q"

text \<open>\<open>np.linalg.norm\<close> of a pair.\<close>

definition pnorm :: "point \<Rightarrow> real" where
  "pnorm p = sqrt (fst p * fst p + snd p * snd p)"

text \<open>
  A polygon is its exterior ring: the list of its coordinates, the first one repeated
  at the end.  \<open>Polygon\<close> closes an open ring and refuses a ring of fewer than four
  coordinates.
\<close>

definition close_ring :: "point list \<Rightarrow> point list" where
  "close_ring cs = (if cs = [] \<or> hd cs = last cs then cs else cs @ [hd cs])"

definition Polygon :: "point list \<Rightarrow> error + point list" where
  "Polygon cs = (if length (close_ring cs) < 4 then Inl ValueError else Inr (close_ring cs))"

definition ring_edges :: "point list \<Rightarrow> (point \<times> point) list" where
  "ring_edges ring = zip ring (tl ring)"

text \<open>
  \<open>walls.contains(Point(p))\<close>: the point lies in the interior of the polygon, the
  boundary excluded.  Every ring this class builds is convex and runs counter-clockwise
  (the angles of its vertices increase), and for such a ring the interior is the set of
  points strictly to the left of every edge.
\<close>

definition left_of :: "point \<times> point \<Rightarrow> point \<Rightarrow> real" where
  "left_of e p = pcross (psub (snd e) (fst e)) (psub p (fst e))"

definition contains :: "point list \<Rightarrow> point \<Rightarrow> bool" where
  "contains ring p = (ring_edges ring \<noteq> [] \<and> list_all (\<lambda>e. 0 < left_of e p) (ring_edges ring))"

text \<open>A point of the boundary lies on one of the edges.\<close>

definition on_segment :: "point \<times> point \<Rightarrow> point \<Rightarrow> bool" where
  "on_segment e p =
     (left_of e p = 0 \<and> 0 \<le> pdot (psub p (fst e)) (psub (snd e) (fst e))
      \<and> pdot (psub p (fst e)) (psub (snd e) (fst e)) \<le> pdot (psub (snd e) (fst e)) (psub (snd e) (fst e)))"

definition on_boundary :: "point list \<Rightarrow> point \<Rightarrow> bool" where
  "on_boundary ring p = list_ex (\<lambda>e. on_segment e p) (ring_edges ring)"

text \<open>
  The result of \<open>intersection\<close> between the ring and a ray: nothing, one point, or a
  geometry of several points (a multi-point or a line).
\<close>

datatype geometry = Empty | Point point | Multi

text \<open>The common points of the segment from \<open>a\<close> to \<open>b\<close> and the segment from \<open>c\<close> to \<open>d\<close>.\<close>

definition seg_inter :: "point \<Rightarrow> point \<Rightarrow> point \<Rightarrow> point \<Rightarrow> geometry" where
  "seg_inter a b c d =
     (let r = psub b a; s = psub d c; den = pcross r s in
      if den \<noteq> 0 then
        (let t = pcross (psub c a) s / den; u = pcross (psub c a) r / den in
         if 0 \<le> t \<and> t \<le> 1 \<and> 0 \<le> u \<and> u \<le> 1 then Point (padd a (pscale t r)) else Empty)
      else if r = (0, 0) then (if on_segment (c, d) a then Point a else Empty)
      else if pcross (psub c a) r \<noteq> 0 then Empty
      else
        (let t0 = pdot (psub c a) r / pdot r r; t1 = pdot (psub d a) r / pdot r r;
             lo = max 0 (min t0 t1); hi = min 1 (max t0 t1) in
         if hi < lo then Empty
         else if lo = hi then Point (padd a (pscale lo r))
         else Multi))"

fun geom_union :: "geometry \<Rightarrow> geometry \<Rightarrow> geometry" where
  "geom_union Empty g = g"
| "geom_union g Empty = g"
| "geom_union (Point p) (Point q) = (if p = q then Point p else Multi)"
| "geom_union _ _ = Multi"

text \<open>\<open>walls.exterior.intersection(LineString([a, b]))\<close>.\<close>

definition exterior_intersection :: "point list \<Rightarrow> point \<Rightarrow> point \<Rightarrow> geometry" where
  "exterior_intersection ring a b =
     foldr (\<lambda>e g. geom_union (seg_inter a b (fst e) (snd e)) g) (ring_edges ring) Empty"

subsection \<open>The environment\<close>

record config =
  wall_dist :: real
  wall_height :: real
  num_walls :: int
  retina_dims :: "nat \<times> nat"
  retina_scale :: real
  retina_pov_horizon :: int
  agent_height :: real
  agent_view_angle :: real
  agent_pov_dist :: real

record ArenaEnv = config +
  retina :: "real list list"
  agent_position :: point
  agent_direction :: real
  walls :: "point list"

text \<open>The default arguments of \<open>__init__\<close>.\<close>

definition default_config :: config where
  "default_config =
     \<lparr>wall_dist = 5, wall_height = 1, num_walls = 4, retina_dims = (50, 80),
      retina_scale = 8 / 1000, retina_pov_horizon = 20, agent_height = 1 / 2,
      agent_view_angle = 3 / 2 * pi, agent_pov_dist = 1 / 2\<rparr>"

text \<open>
  The angles of the wall corners: \<open>num_walls\<close> multiples of the wall view angle, the first
  one appended again, all shifted by half a wall.
\<close>

definition wall_angles :: "int \<Rightarrow> error + real list" where
  "wall_angles n =
     (if n = 0 then Inl ZeroDivisionError
      else
        (let wall_view_angle = 2 * pi / of_int n;
             angles = map (\<lambda>i. wall_view_angle * of_nat i) [0..<nat n] in
         if angles = [] then Inl IndexError
         else Inr (map (\<lambda>a. a - wall_view_angle / 2) (take (nat n) angles @ [hd angles]))))"

definition init :: "config \<Rightarrow> error + ArenaEnv" where
  "init cfg =
     (case wall_angles (num_walls cfg) of
        Inl e \<Rightarrow> Inl e
      | Inr angles \<Rightarrow>
          (case Polygon (map (\<lambda>a. (wall_dist cfg * cos a, wall_dist cfg * sin a)) angles) of
             Inl e \<Rightarrow> Inl e
           | Inr ring \<Rightarrow>
               Inr \<lparr>wall_dist = wall_dist cfg, wall_height = wall_height cfg,
                    num_walls = num_walls cfg, retina_dims = retina_dims cfg,
                    retina_scale = retina_scale cfg,
                    retina_pov_horizon = retina_pov_horizon cfg,
                    agent_height = agent_height cfg,
                    agent_view_angle = agent_view_angle cfg,
                    agent_pov_dist = agent_pov_dist cfg,
                    retina = replicate (fst (retina_dims cfg)) (replicate (snd (retina_dims cfg)) 0),
                    agent_position = (0, 0), agent_direction = 0, walls = ring\<rparr>))"

definition find_angle :: "point \<Rightarrow> point \<Rightarrow> real" where
  "find_angle p1 p2 = fmod2pi (arctan2 (snd p2 - snd p1) (fst p2 - fst p1))"

subsection \<open>The motion of \<open>step\<close>\<close>

definition new_direction :: "ArenaEnv \<Rightarrow> real \<Rightarrow> real" where
  "new_direction s direction = agent_direction s + direction"

definition new_position :: "ArenaEnv \<Rightarrow> real \<Rightarrow> real \<Rightarrow> point" where
  "new_position s speed direction =
     padd (agent_position s)
       (pscale speed (cos (new_direction s direction), sin (new_direction s direction)))"

text \<open>
  Direction and position are committed together when the walls contain the new position;
  the direction is then reduced modulo \<open>2 * pi\<close> in both cases.
\<close>

definition move :: "ArenaEnv \<Rightarrow> real \<Rightarrow> real \<Rightarrow> ArenaEnv" where
  "move s speed direction =
     (let s1 = (if contains (walls s) (new_position s speed direction)
                then s\<lparr>agent_direction := new_direction s direction,
                       agent_position := new_position s speed direction\<rparr>
                else s)
      in s1\<lparr>agent_direction := fmod2pi (agent_direction s1)\<rparr>)"

subsection \<open>The retina of \<open>step\<close>\<close>

definition angle_increment :: "ArenaEnv \<Rightarrow> real" where
  "angle_increment s = agent_view_angle s / of_nat (snd (retina_dims s))"

text \<open>
  The bearings of the wall corners (the ring without its closing coordinate), each
  lowered by one angle increment and reduced modulo \<open>2 * pi\<close>.
\<close>

definition agent_edge_directions :: "ArenaEnv \<Rightarrow> real list" where
  "agent_edge_directions s =
     map (\<lambda>edge. fmod2pi (find_angle (agent_position s) edge - angle_increment s))
       (butlast (walls s))"

definition ray_angles :: "ArenaEnv \<Rightarrow> real list" where
  "ray_angles s =
     map (\<lambda>i. - agent_view_angle s / 2 + of_nat i * angle_increment s
               + angle_increment s / 2 + agent_direction s)
       [0..<snd (retina_dims s)]"

definition max_fov_distance :: "ArenaEnv \<Rightarrow> real" where
  "max_fov_distance s = 2 * wall_dist s"

definition ray_end :: "ArenaEnv \<Rightarrow> real \<Rightarrow> point" where
  "ray_end s a =
     padd (agent_position s) (max_fov_distance s * cos a, max_fov_distance s * sin a)"

definition intersections :: "ArenaEnv \<Rightarrow> geometry list" where
  "intersections s =
     map (\<lambda>a. exterior_intersection (walls s) (agent_position s) (ray_end s a)) (ray_angles s)"

text \<open>
  The distance of every intersection from the agent.  Only a single point has the two
  coordinates that the subtraction of the position needs; any other geometry raises.
\<close>

fun distances :: "point \<Rightarrow> geometry list \<Rightarrow> error + real list" where
  "distances pos [] = Inr []"
| "distances pos (Point q # gs) =
     (case distances pos gs of Inl e \<Rightarrow> Inl e | Inr ds \<Rightarrow> Inr (pnorm (psub q pos) # ds))"
| "distances pos (g # gs) = Inl GeometryError"

text \<open>The retina rows of the wall base and of the wall top at distance \<open>d\<close>.\<close>

definition row_b :: "ArenaEnv \<Rightarrow> real \<Rightarrow> int" where
  "row_b s d =
     retina_pov_horizon s - astype_int (agent_height s / d * agent_pov_dist s / retina_scale s)"

definition row_h :: "ArenaEnv \<Rightarrow> real \<Rightarrow> int" where
  "row_h s d =
     retina_pov_horizon s
       + astype_int ((wall_height s - agent_height s) / d * agent_pov_dist s / retina_scale s)"

definition set_px :: "nat \<Rightarrow> nat \<Rightarrow> real \<Rightarrow> real list list \<Rightarrow> real list list" where
  "set_px r c v buf = buf[r := (buf ! r)[c := v]]"

text \<open>
  \<open>retina[rows[valid], retina_indices[valid]] = 1\<close>, where \<open>valid\<close> selects the columns
  whose row lies inside the retina.
\<close>

definition draw_rows :: "nat \<Rightarrow> int list \<Rightarrow> real list list \<Rightarrow> real list list" where
  "draw_rows H rows buf =
     fold (\<lambda>rc. set_px (nat (fst rc)) (snd rc) 1)
       (filter (\<lambda>rc. 0 \<le> fst rc \<and> fst rc < int H) (zip rows [0..<length rows])) buf"

definition lower_bounds :: "ArenaEnv \<Rightarrow> real list" where
  "lower_bounds s = map (\<lambda>a. fmod2pi (a - angle_increment s / 2)) (ray_angles s)"

definition upper_bounds :: "ArenaEnv \<Rightarrow> real list" where
  "upper_bounds s = map (\<lambda>a. fmod2pi (a + angle_increment s / 2)) (ray_angles s)"

text \<open>The matrix \<open>edges\<close>: one row per retina column, one entry per wall corner.\<close>

definition edges :: "ArenaEnv \<Rightarrow> bool list list" where
  "edges s =
     map (\<lambda>lu. map (\<lambda>ad. fst lu < ad \<and> ad < snd lu) (agent_edge_directions s))
       (zip (lower_bounds s) (upper_bounds s))"

text \<open>\<open>np.where(edges)[0]\<close>: the column of every true entry, in row-major order.\<close>

definition edges_in_retina :: "ArenaEnv \<Rightarrow> nat list" where
  "edges_in_retina s =
     concat (map (\<lambda>ir. map (\<lambda>_. fst ir) (filter (\<lambda>x. x) (snd ir)))
       (zip [0..<length (edges s)] (edges s)))"

text \<open>The matrix \<open>inner_wall\<close>: one row per retina row, one entry per retina column.\<close>

definition inner_wall :: "nat \<Rightarrow> int list \<Rightarrow> int list \<Rightarrow> bool list list" where
  "inner_wall H b h =
     map (\<lambda>col. map (\<lambda>bh. fst bh < int col \<and> int col < snd bh) (zip b h)) [0..<H]"

text \<open>\<open>retina[:, e] = 1 * inner_wall[:, e]\<close>.\<close>

definition set_column :: "bool list list \<Rightarrow> nat \<Rightarrow> real list list \<Rightarrow> real list list" where
  "set_column iw e buf = map (\<lambda>r. (buf ! r)[e := of_bool (iw ! r ! e)]) [0..<length buf]"

text \<open>\<open>retina *= 0\<close>.\<close>

definition clear :: "real list list \<Rightarrow> real list list" where
  "clear buf = map (map (\<lambda>x. x * 0)) buf"

text \<open>
  The drawing of the retina from the distances \<open>ds\<close> of the rays: the rows of the wall
  base, the rows of the wall top, then the columns in which a wall corner is seen.
\<close>

definition paint :: "ArenaEnv \<Rightarrow> real list \<Rightarrow> real list list \<Rightarrow> real list list" where
  "paint s ds buf =
     (let b = map (row_b s) ds; h = map (row_h s) ds; H = fst (retina_dims s);
          r1 = draw_rows H b buf;
          r2 = draw_rows H h r1
      in fold (set_column (inner_wall H b h)) (edges_in_retina s) r2)"

text \<open>
  The part of \<open>step\<close> after the motion.  The state is returned in both cases, since an
  exception leaves the object as it was mutated so far; the second component is the
  exception or the returned array \<open>retina[::-1]\<close>.
\<close>

definition render :: "ArenaEnv \<Rightarrow> ArenaEnv \<times> (error + real list list)" where
  "render s =
     (if snd (retina_dims s) = 0 then (s, Inl ZeroDivisionError)
      else
        (let s0 = s\<lparr>retina := clear (retina s)\<rparr> in
         case distances (agent_position s) (intersections s) of
           Inl e \<Rightarrow> (s0, Inl e)
         | Inr ds \<Rightarrow>
             (let r3 = paint s ds (retina s0) in (s0\<lparr>retina := r3\<rparr>, Inr (rev r3)))))"

definition step :: "ArenaEnv \<Rightarrow> real \<Rightarrow> real \<Rightarrow> ArenaEnv \<times> (error + real list list)" where
  "step s speed direction = render (move s speed direction)"

text \<open>A sequence of calls of \<open>step\<close>, each with its speed and its direction change.\<close>

fun run :: "ArenaEnv \<Rightarrow> (real \<times> real) list \<Rightarrow> ArenaEnv" where
  "run s [] = s"
| "run s (c # cs) = run (fst (step s (fst c) (snd c))) cs"

subsection \<open>Notions used to state the properties\<close>



fun is_point :: "geometry \<Rightarrow> bool" where
  "is_point (Point q) = True"
| "is_point g = False"

text \<open>The corner number \<open>i\<close> of the walls that \<open>init\<close> builds.\<close>

definition wall_corner :: "config \<Rightarrow> nat \<Rightarrow> point" where
  "wall_corner cfg i =
     (wall_dist cfg * cos (2 * pi / of_int (num_walls cfg) * of_nat i - 2 * pi / of_int (num_walls cfg) / 2),
      wall_dist cfg * sin (2 * pi / of_int (num_walls cfg) * of_nat i - 2 * pi / of_int (num_walls cfg) / 2))"

text \<open>
  The walls of the default arena, a square of circumradius 5, and the environment that
  \<open>init\<close> returns for a configuration once its walls are known.
\<close>

definition square_walls :: "point list" where
  "square_walls =
     [(5 * sqrt 2 / 2, - (5 * sqrt 2 / 2)), (5 * sqrt 2 / 2, 5 * sqrt 2 / 2),
      (- (5 * sqrt 2 / 2), 5 * sqrt 2 / 2), (- (5 * sqrt 2 / 2), - (5 * sqrt 2 / 2)),
      (5 * sqrt 2 / 2, - (5 * sqrt 2 / 2))]"

definition env_of :: "config \<Rightarrow> point list \<Rightarrow> ArenaEnv" where
  "env_of cfg ring =
     \<lparr>wall_dist = wall_dist cfg, wall_height = wall_height cfg,
      num_walls = num_walls cfg, retina_dims = retina_dims cfg,
      retina_scale = retina_scale cfg, retina_pov_horizon = retina_pov_horizon cfg,
      agent_height = agent_height cfg, agent_view_angle = agent_view_angle cfg,
      agent_pov_dist = agent_pov_dist cfg,
      retina = replicate (fst (retina_dims cfg)) (replicate (snd (retina_dims cfg)) 0),
      agent_position = (0, 0), agent_direction = 0, walls = ring\<rparr>"

text \<open>
  The reading of the corner overlay in which the bearing of corner \<open>k\<close> itself, reduced
  modulo \<open>2 * pi\<close>, is compared with the slice of column \<open>i\<close>.
\<close>

definition spec_corner :: "ArenaEnv \<Rightarrow> nat \<Rightarrow> nat \<Rightarrow> bool" where
  "spec_corner s i k =
     (lower_bounds s ! i < find_angle (agent_position s) (walls s ! k)
      \<and> find_angle (agent_position s) (walls s ! k) < upper_bounds s ! i)"



text \<open>
  A retina of a single column that looks ahead with a view angle of \<open>pi\<close>, in the
  default arena; the state after the agent has turned by a quarter; and a state whose
  position has been set outside the walls.
\<close>

definition one_column_config :: config where
  "one_column_config = default_config\<lparr>retina_dims := (50, 1), agent_view_angle := pi\<rparr>"

definition one_column_env :: ArenaEnv where
  "one_column_env = env_of one_column_config square_walls"

definition turned_env :: ArenaEnv where
  "turned_env = fst (step one_column_env 0 (pi / 2))"

definition outside_env :: ArenaEnv where
  "outside_env = one_column_env\<lparr>agent_position := (100, 0)\<rparr>"


section \<open>Properties\<close>

subsection \<open>Angles and motion\<close>


lemma fmod2pi_id: "0 \<le> x \<Longrightarrow> x < 2 * pi \<Longrightarrow> fmod2pi x = x"
proof -
  assume a: "0 \<le> x" "x < 2 * pi"
  have "\<lfloor>x / (2 * pi)\<rfloor> = 0"
    using a by (simp add: floor_eq_iff)
  then show ?thesis by (simp add: fmod2pi_def)
qed


lemma render_position: "agent_position (fst (render s)) = agent_position s"
  by (simp add: render_def Let_def split: sum.splits)

lemma render_direction: "agent_direction (fst (render s)) = agent_direction s"
  by (simp add: render_def Let_def split: sum.splits)

lemma render_walls: "walls (fst (render s)) = walls s"
  by (simp add: render_def Let_def split: sum.splits)

lemma move_walls: "walls (move s v d) = walls s"
  by (simp add: move_def Let_def)


lemma move_contains:
  "contains (walls s) (agent_position s) \<Longrightarrow> contains (walls (move s v d)) (agent_position (move s v d))"
  by (simp add: move_def Let_def)

lemma move_rejected:
  "\<not> contains (walls s) (new_position s v d) \<Longrightarrow> move s v d = s\<lparr>agent_direction := fmod2pi (agent_direction s)\<rparr>"
  by (simp add: move_def Let_def)

subsection \<open>The walls built by \<open>init\<close>\<close>

lemma wall_angles_Inr:
  assumes "wall_angles n = Inr as"
  shows "1 \<le> n" and "as = map (\<lambda>i. 2 * pi / of_int n * of_nat i - 2 * pi / of_int n / 2) ([0..<nat n] @ [0])"
proof -
  from assms have n0: "n \<noteq> 0" and ne: "[0..<nat n] \<noteq> []"
    by (auto simp: wall_angles_def Let_def split: if_splits)
  then show "1 \<le> n" by simp
  then have hd: "hd [0..<nat n] = 0" by (simp add: hd_upt)
  from assms n0 ne show "as = map (\<lambda>i. 2 * pi / of_int n * of_nat i - 2 * pi / of_int n / 2) ([0..<nat n] @ [0])"
    by (auto simp: wall_angles_def Let_def hd_map hd comp_def)
qed

lemma init_Inr:
  assumes "init cfg = Inr s"
  shows "3 \<le> num_walls cfg" and "walls s = map (wall_corner cfg) ([0..<nat (num_walls cfg)] @ [0])"
    and "agent_position s = (0, 0)" and "agent_direction s = 0"
    and "retina s = replicate (fst (retina_dims cfg)) (replicate (snd (retina_dims cfg)) 0)"
    and "retina_dims s = retina_dims cfg"
proof -
  from assms obtain as ring where as: "wall_angles (num_walls cfg) = Inr as"
    and ring: "Polygon (map (\<lambda>a. (wall_dist cfg * cos a, wall_dist cfg * sin a)) as) = Inr ring"
    and s: "s = \<lparr>wall_dist = wall_dist cfg, wall_height = wall_height cfg,
                    num_walls = num_walls cfg, retina_dims = retina_dims cfg,
                    retina_scale = retina_scale cfg,
                    retina_pov_horizon = retina_pov_horizon cfg,
                    agent_height = agent_height cfg,
                    agent_view_angle = agent_view_angle cfg,
                    agent_pov_dist = agent_pov_dist cfg,
                    retina = replicate (fst (retina_dims cfg)) (replicate (snd (retina_dims cfg)) 0),
                    agent_position = (0, 0), agent_direction = 0, walls = ring\<rparr>"
    by (auto simp: init_def split: sum.splits)
  note wa = wall_angles_Inr[OF as]
  let ?cs = "map (\<lambda>a. (wall_dist cfg * cos a, wall_dist cfg * sin a)) as"
  have cs: "?cs = map (wall_corner cfg) ([0..<nat (num_walls cfg)] @ [0])"
    unfolding wa(2) by (simp add: wall_corner_def)
  have n1: "0 < nat (num_walls cfg)" using wa(1) by simp
  have "hd ?cs = last ?cs"
    unfolding cs using n1 by (simp add: hd_map hd_upt hd_append upt_conv_Cons)
  then have cr: "close_ring ?cs = ?cs" by (simp add: close_ring_def)
  from ring have "\<not> length ?cs < 4" and r: "ring = ?cs"
    by (auto simp: Polygon_def cr split: if_splits)
  then show "3 \<le> num_walls cfg" unfolding cs by simp
  show "walls s = map (wall_corner cfg) ([0..<nat (num_walls cfg)] @ [0])"
    using r cs by (simp add: s)
  show "agent_position s = (0, 0)" "agent_direction s = 0"
    "retina s = replicate (fst (retina_dims cfg)) (replicate (snd (retina_dims cfg)) 0)"
    "retina_dims s = retina_dims cfg"
    by (simp_all add: s)
qed

lemma left_of_origin: "left_of (a, b) (0, 0) = pcross a b"
  by (simp add: left_of_def pcross_def psub_def algebra_simps)

lemma pcross_polar:
  "pcross (D * cos a, D * sin a) (D * cos b, D * sin b) = D\<^sup>2 * sin (b - a)"
  by (simp add: pcross_def sin_diff power2_eq_square algebra_simps)

lemma pcross_corner:
  "pcross (wall_corner cfg i) (wall_corner cfg j) =
     (wall_dist cfg)\<^sup>2 * sin (2 * pi / of_int (num_walls cfg) * (of_nat j - of_nat i))"
proof -
  have "(2 * pi / of_int (num_walls cfg) * of_nat j - 2 * pi / of_int (num_walls cfg) / 2)
           - (2 * pi / of_int (num_walls cfg) * of_nat i - 2 * pi / of_int (num_walls cfg) / 2)
      = 2 * pi / of_int (num_walls cfg) * (of_nat j - of_nat i)"
    by (simp add: right_diff_distrib)
  then show ?thesis
    unfolding wall_corner_def pcross_polar by simp
qed

lemma sin_wall_pos:
  assumes "3 \<le> (n::int)"
  shows "0 < sin (2 * pi / of_int n)"
proof -
  have n: "0 < (of_int n :: real)" "2 < (of_int n :: real)" using assms by simp_all
  have "pi * 2 < pi * of_int n"
    by (rule mult_strict_left_mono) (use n in simp_all)
  then have "2 * pi / of_int n < pi"
    using n(1) by (simp add: pos_divide_less_eq mult.commute)
  moreover have "0 < 2 * pi / of_int n" using n by simp
  ultimately show ?thesis by (simp add: sin_gt_zero)
qed


lemma list_all_zip_tl:
  "list_all P (zip xs (tl xs)) \<longleftrightarrow> (\<forall>i. Suc i < length xs \<longrightarrow> P (xs ! i, xs ! Suc i))"
proof -
  have "list_all P (zip xs (tl xs)) \<longleftrightarrow> (\<forall>i < length xs - 1. P (xs ! i, tl xs ! i))"
    by (simp add: list_all_length)
  also have "\<dots> \<longleftrightarrow> (\<forall>i. Suc i < length xs \<longrightarrow> P (xs ! i, xs ! Suc i))"
    by (auto simp: nth_tl less_diff_conv)
  finally show ?thesis .
qed

lemma init_contains_origin:
  assumes i: "init cfg = Inr s" and d: "wall_dist cfg \<noteq> 0"
  shows "contains (walls s) (0, 0)"
proof -
  note I = init_Inr[OF i]
  let ?N = "nat (num_walls cfg)"
  let ?w = "2 * pi / of_int (num_walls cfg)"
  have N: "3 \<le> ?N" "of_nat ?N = (of_int (num_walls cfg) :: real)" using I(1) by simp_all
  have sp: "0 < sin ?w" by (rule sin_wall_pos[OF I(1)])
  have d2: "0 < (wall_dist cfg)\<^sup>2" using d by simp
  have edge: "0 < left_of (walls s ! k, walls s ! Suc k) (0, 0)" if k: "Suc k < length (walls s)" for k
  proof (cases "Suc k < ?N")
    case True
    then have "walls s ! k = wall_corner cfg k" "walls s ! Suc k = wall_corner cfg (Suc k)"
      unfolding I(2) by (simp_all add: nth_append)
    then show ?thesis using sp d2
      by (simp add: left_of_origin pcross_corner)
  next
    case False
    with k have kN: "Suc k = ?N" unfolding I(2) by simp
    then have e: "walls s ! k = wall_corner cfg k" "walls s ! Suc k = wall_corner cfg 0"
      unfolding I(2) by (simp_all add: nth_append)
    have "real k = of_int (num_walls cfg) - 1" using kN N(2) by linarith
    then have "?w * (of_nat 0 - of_nat k) = ?w * 1 - ?w * of_int (num_walls cfg)"
      by (simp only: right_diff_distrib of_nat_0)
    moreover have "?w * of_int (num_walls cfg) = 2 * pi"
      using I(1) by simp
    ultimately have "?w * (of_nat 0 - of_nat k) = ?w - 2 * pi"
      by simp
    then have "sin (?w * (of_nat 0 - of_nat k)) = sin ?w"
      by (simp add: sin_diff)
    then show ?thesis using sp d2
      unfolding e left_of_origin pcross_corner by simp
  qed
  have "ring_edges (walls s) \<noteq> []"
    unfolding ring_edges_def I(2) using N(1) by (cases ?N) (simp_all add: upt_conv_Cons)
  then show ?thesis
    using edge by (simp add: contains_def list_all_zip_tl ring_edges_def)
qed

subsection \<open>Drawing on the retina\<close>



















lemma distances_error: "\<not> list_all is_point gs \<Longrightarrow> distances pos gs = Inl GeometryError"
  by (induction pos gs rule: distances.induct) (auto split: sum.splits)







lemma render_Inl:
  assumes "0 < snd (retina_dims s)" and "distances (agent_position s) (intersections s) = Inl e"
  shows "snd (render s) = Inl e" and "retina (fst (render s)) = clear (retina s)"
  using assms by (simp_all add: render_def Let_def)



lemma move_retina: "retina (move s v d) = retina s" "retina_dims (move s v d) = retina_dims s"
  by (simp_all add: move_def Let_def)




lemma step_walls: "walls (fst (step s v d)) = walls s"
  by (simp add: step_def render_walls move_walls)

lemma step_position: "agent_position (fst (step s v d)) = agent_position (move s v d)"
  by (simp add: step_def render_position)

lemma step_direction: "agent_direction (fst (step s v d)) = agent_direction (move s v d)"
  by (simp add: step_def render_direction)




lemma run_contains:
  "contains (walls s) (agent_position s) \<Longrightarrow> contains (walls (run s cs)) (agent_position (run s cs))"
proof (induction cs arbitrary: s)
  case Nil
  then show ?case by simp
next
  case (Cons c cs)
  have "contains (walls (fst (step s (fst c) (snd c)))) (agent_position (fst (step s (fst c) (snd c))))"
    unfolding step_walls step_position using move_contains[OF Cons.prems] by (simp add: move_walls)
  from Cons.IH[OF this] show ?case by simp
qed



lemma on_boundary_not_contains: "on_boundary ring p \<Longrightarrow> \<not> contains ring p"
proof
  assume b: "on_boundary ring p" and c: "contains ring p"
  from b obtain e where "e \<in> set (ring_edges ring)" "left_of e p = 0"
    by (auto simp: on_boundary_def list_ex_iff on_segment_def)
  moreover from c have "\<forall>e \<in> set (ring_edges ring). 0 < left_of e p"
    by (simp add: contains_def list_all_iff)
  ultimately show False by force
qed

subsection \<open>The default arena\<close>

lemma upt_4: "[0..<4] = [0, 1, 2, Suc 2]"
  by (simp add: upt_rec numeral_eq_Suc)

lemma cos_3pi4: "cos (3 * pi / 4) = - (sqrt 2 / 2)"
proof -
  have "cos (3 * pi / 4) = cos (pi - pi / 4)" by (rule arg_cong[where f = cos]) simp
  then show ?thesis by (simp only: cos_pi_minus cos_45)
qed

lemma sin_3pi4: "sin (3 * pi / 4) = sqrt 2 / 2"
proof -
  have "sin (3 * pi / 4) = sin (pi - pi / 4)" by (rule arg_cong[where f = sin]) simp
  then show ?thesis by (simp only: sin_pi_minus sin_45)
qed

lemma cos_5pi4: "cos (5 * pi / 4) = - (sqrt 2 / 2)"
proof -
  have "cos (5 * pi / 4) = cos (pi / 4 + pi)" by (rule arg_cong[where f = cos]) simp
  then show ?thesis by (simp only: cos_periodic_pi cos_45)
qed

lemma sin_5pi4: "sin (5 * pi / 4) = - (sqrt 2 / 2)"
proof -
  have "sin (5 * pi / 4) = sin (pi / 4 + pi)" by (rule arg_cong[where f = sin]) simp
  then show ?thesis by (simp only: sin_periodic_pi sin_45)
qed

lemma wall_angles_4: "wall_angles 4 = Inr [- (pi / 4), pi / 4, 3 * pi / 4, 5 * pi / 4, - (pi / 4)]"
  by (simp add: wall_angles_def Let_def upt_4)

lemma init_square:
  assumes "num_walls cfg = 4" "wall_dist cfg = 5"
  shows "init cfg = Inr (env_of cfg square_walls)"
  using assms
  by (simp add: init_def wall_angles_4 Polygon_def close_ring_def env_of_def square_walls_def
      cos_45 sin_45 cos_3pi4 sin_3pi4 cos_5pi4 sin_5pi4)

lemma sqrt2_bounds: "1 < sqrt 2" "sqrt 2 < 2"
  by (simp_all add: real_less_lsqrt)

lemma square_edges:
  "ring_edges square_walls =
     [((5 * sqrt 2 / 2, - (5 * sqrt 2 / 2)), (5 * sqrt 2 / 2, 5 * sqrt 2 / 2)),
      ((5 * sqrt 2 / 2, 5 * sqrt 2 / 2), (- (5 * sqrt 2 / 2), 5 * sqrt 2 / 2)),
      ((- (5 * sqrt 2 / 2), 5 * sqrt 2 / 2), (- (5 * sqrt 2 / 2), - (5 * sqrt 2 / 2))),
      ((- (5 * sqrt 2 / 2), - (5 * sqrt 2 / 2)), (5 * sqrt 2 / 2, - (5 * sqrt 2 / 2)))]"
  by (simp add: ring_edges_def square_walls_def)

lemma square_contains:
  "contains square_walls (x, y) \<longleftrightarrow>
     x < 5 * sqrt 2 / 2 \<and> y < 5 * sqrt 2 / 2 \<and> - (5 * sqrt 2 / 2) < x \<and> - (5 * sqrt 2 / 2) < y"
proof -
  have a: "0 < 5 * sqrt 2" by simp
  have 1: "0 < 5 * sqrt 2 * (5 * sqrt 2 / 2 - x) \<longleftrightarrow> x < 5 * sqrt 2 / 2"
    using a by (simp only: zero_less_mult_iff) auto
  have 2: "0 < 5 * sqrt 2 * (5 * sqrt 2 / 2 - y) \<longleftrightarrow> y < 5 * sqrt 2 / 2"
    using a by (simp only: zero_less_mult_iff) auto
  have 3: "0 < 5 * sqrt 2 * (x + 5 * sqrt 2 / 2) \<longleftrightarrow> - (5 * sqrt 2 / 2) < x"
    using a by (simp only: zero_less_mult_iff) auto
  have 4: "0 < 5 * sqrt 2 * (y + 5 * sqrt 2 / 2) \<longleftrightarrow> - (5 * sqrt 2 / 2) < y"
    using a by (simp only: zero_less_mult_iff) auto
  have l1: "left_of ((5 * sqrt 2 / 2, - (5 * sqrt 2 / 2)), (5 * sqrt 2 / 2, 5 * sqrt 2 / 2)) (x, y)
      = 5 * sqrt 2 * (5 * sqrt 2 / 2 - x)"
    by (simp add: left_of_def pcross_def psub_def algebra_simps)
  have l2: "left_of ((5 * sqrt 2 / 2, 5 * sqrt 2 / 2), (- (5 * sqrt 2 / 2), 5 * sqrt 2 / 2)) (x, y)
      = 5 * sqrt 2 * (5 * sqrt 2 / 2 - y)"
    by (simp add: left_of_def pcross_def psub_def algebra_simps)
  have l3: "left_of ((- (5 * sqrt 2 / 2), 5 * sqrt 2 / 2), (- (5 * sqrt 2 / 2), - (5 * sqrt 2 / 2))) (x, y)
      = 5 * sqrt 2 * (x + 5 * sqrt 2 / 2)"
    by (simp add: left_of_def pcross_def psub_def algebra_simps)
  have l4: "left_of ((- (5 * sqrt 2 / 2), - (5 * sqrt 2 / 2)), (5 * sqrt 2 / 2, - (5 * sqrt 2 / 2))) (x, y)
      = 5 * sqrt 2 * (y + 5 * sqrt 2 / 2)"
    by (simp add: left_of_def pcross_def psub_def algebra_simps)
  show ?thesis
    unfolding contains_def square_edges by (simp only: list.pred_inject l1 l2 l3 l4 1 2 3 4) auto
qed

lemma default_init: "init default_config = Inr (env_of default_config square_walls)"
  by (rule init_square) (simp_all add: default_config_def)

lemma env_of_simps:
  "walls (env_of cfg ring) = ring" "agent_position (env_of cfg ring) = (0, 0)"
  "agent_direction (env_of cfg ring) = 0" "retina_dims (env_of cfg ring) = retina_dims cfg"
  "wall_dist (env_of cfg ring) = wall_dist cfg"
  by (simp_all add: env_of_def)

subsection \<open>Rays and corners of the default arena\<close>

lemma seg_inter_cross:
  assumes "pcross (psub b a) (psub d c) \<noteq> 0"
  shows "seg_inter a b c d =
     (if 0 \<le> pcross (psub c a) (psub d c) / pcross (psub b a) (psub d c)
        \<and> pcross (psub c a) (psub d c) / pcross (psub b a) (psub d c) \<le> 1
        \<and> 0 \<le> pcross (psub c a) (psub b a) / pcross (psub b a) (psub d c)
        \<and> pcross (psub c a) (psub b a) / pcross (psub b a) (psub d c) \<le> 1
      then Point (padd a (pscale (pcross (psub c a) (psub d c) / pcross (psub b a) (psub d c)) (psub b a)))
      else Empty)"
  using assms by (simp add: seg_inter_def Let_def)

lemma seg_inter_parallel:
  assumes "pcross (psub b a) (psub d c) = 0" "psub b a \<noteq> (0, 0)" "pcross (psub c a) (psub b a) \<noteq> 0"
  shows "seg_inter a b c d = Empty"
  using assms by (simp add: seg_inter_def Let_def)



lemma length_ray_angles: "length (ray_angles s) = snd (retina_dims s)"
  by (simp add: ray_angles_def)

lemma length_edges: "length (edges s) = snd (retina_dims s)"
  by (simp add: edges_def lower_bounds_def upper_bounds_def length_ray_angles)

lemma length_agent_edge_directions: "length (agent_edge_directions s) = length (walls s) - 1"
  by (simp add: agent_edge_directions_def)

lemma edges_nth:
  assumes "i < snd (retina_dims s)" "k < length (walls s) - 1"
  shows "edges s ! i ! k \<longleftrightarrow>
     lower_bounds s ! i < agent_edge_directions s ! k \<and> agent_edge_directions s ! k < upper_bounds s ! i"
  using assms
  by (simp add: edges_def lower_bounds_def upper_bounds_def length_ray_angles
      length_agent_edge_directions)

lemma edges_row_length:
  "i < snd (retina_dims s) \<Longrightarrow> length (edges s ! i) = length (walls s) - 1"
  by (simp add: edges_def lower_bounds_def upper_bounds_def length_ray_angles
      length_agent_edge_directions)

lemma in_set_zip_upt:
  "p \<in> set (zip [0..<length xs] xs) \<longleftrightarrow> fst p < length xs \<and> xs ! fst p = snd p"
  using in_set_enumerate_eq[of p 0 xs] by (simp add: enumerate_eq_zip)

lemma in_edges_in_retina:
  "c \<in> set (edges_in_retina s) \<longleftrightarrow>
     c < snd (retina_dims s) \<and> (\<exists>k < length (walls s) - 1. edges s ! c ! k)"
proof
  assume "c \<in> set (edges_in_retina s)"
  then obtain ir where ir: "ir \<in> set (zip [0..<length (edges s)] (edges s))"
    and c: "c \<in> set (map (\<lambda>_. fst ir) (filter (\<lambda>x. x) (snd ir)))"
    unfolding edges_in_retina_def by auto
  from c have fc: "fst ir = c" and "\<exists>x \<in> set (snd ir). x" by auto
  moreover from ir have "fst ir < length (edges s)" "edges s ! fst ir = snd ir"
    by (simp_all add: in_set_zip_upt)
  ultimately have cl: "c < snd (retina_dims s)" and "\<exists>x \<in> set (edges s ! c). x"
    by (simp_all add: length_edges)
  then obtain k where "k < length (edges s ! c)" "edges s ! c ! k"
    by (auto simp: in_set_conv_nth)
  then show "c < snd (retina_dims s) \<and> (\<exists>k < length (walls s) - 1. edges s ! c ! k)"
    using cl by (auto simp: edges_row_length)
next
  assume a: "c < snd (retina_dims s) \<and> (\<exists>k < length (walls s) - 1. edges s ! c ! k)"
  then obtain k where k: "k < length (edges s ! c)" "edges s ! c ! k"
    by (auto simp: edges_row_length)
  then have "True \<in> set (edges s ! c)"
    by (metis nth_mem)
  then have "filter (\<lambda>x. x) (edges s ! c) \<noteq> []"
    by (auto simp: filter_empty_conv)
  then have "c \<in> set (map (\<lambda>_. c) (filter (\<lambda>x. x) (edges s ! c)))"
    by (cases "filter (\<lambda>x. x) (edges s ! c)") simp_all
  moreover have "(c, edges s ! c) \<in> set (zip [0..<length (edges s)] (edges s))"
    unfolding in_set_zip_upt using a by (simp add: length_edges)
  ultimately show "c \<in> set (edges_in_retina s)"
    unfolding edges_in_retina_def by force
qed





lemma fmod2pi_neg: "- (2 * pi) \<le> x \<Longrightarrow> x < 0 \<Longrightarrow> fmod2pi x = x + 2 * pi"
proof -
  assume a: "- (2 * pi) \<le> x" "x < 0"
  have "\<lfloor>x / (2 * pi)\<rfloor> = - 1"
    using a by (simp add: floor_eq_iff pos_le_divide_eq pos_divide_less_eq)
  then show ?thesis by (simp add: fmod2pi_def)
qed

lemma find_angle_corners:
  fixes a :: real
  assumes "0 < a"
  shows "find_angle (0, 0) (a, - a) = 7 * pi / 4" "find_angle (0, 0) (a, a) = pi / 4"
    "find_angle (0, 0) (- a, a) = 3 * pi / 4" "find_angle (0, 0) (- a, - a) = 5 * pi / 4"
proof -
  have m: "arctan (- 1) = - (pi / 4)" by (simp add: arctan_minus arctan_one)
  have A: "arctan2 (- a) a = - (pi / 4)" "arctan2 a a = pi / 4"
    "arctan2 a (- a) = 3 * pi / 4" "arctan2 (- a) (- a) = - (3 * pi / 4)"
    using assms by (simp_all add: arctan2_def m arctan_one)
  have F: "fmod2pi (- (pi / 4)) = 7 * pi / 4" "fmod2pi (- (3 * pi / 4)) = 5 * pi / 4"
    by (subst fmod2pi_neg; simp)+
  have G: "fmod2pi (pi / 4) = pi / 4" "fmod2pi (3 * pi / 4) = 3 * pi / 4"
    by (subst fmod2pi_id; simp)+
  show "find_angle (0, 0) (a, - a) = 7 * pi / 4" "find_angle (0, 0) (a, a) = pi / 4"
    "find_angle (0, 0) (- a, a) = 3 * pi / 4" "find_angle (0, 0) (- a, - a) = 5 * pi / 4"
    unfolding find_angle_def by (simp_all only: fst_conv snd_conv diff_0_right A F G)
qed

lemma square_find_angle:
  "map (find_angle (0, 0)) (butlast square_walls) = [7 * pi / 4, pi / 4, 3 * pi / 4, 5 * pi / 4]"
  using find_angle_corners[of "5 * sqrt 2 / 2"] by (simp add: square_walls_def)

lemma default_env_fields:
  "agent_view_angle (env_of default_config ring) = 3 / 2 * pi"
  "retina_dims (env_of default_config ring) = (50, 80)"
  "agent_position (env_of default_config ring) = (0, 0)"
  "agent_direction (env_of default_config ring) = 0"
  "walls (env_of default_config ring) = ring"
  by (simp_all add: env_of_def default_config_def)

lemma default_increment: "angle_increment (env_of default_config ring) = 3 * pi / 160"
  by (simp add: angle_increment_def default_env_fields)

lemma fmod2pi_pi: "0 \<le> c \<Longrightarrow> c < 2 \<Longrightarrow> fmod2pi (c * pi) = c * pi"
  by (rule fmod2pi_id) simp_all

lemma default_bounds_53:
  "lower_bounds (env_of default_config ring) ! 53 = 39 / 160 * pi"
  "upper_bounds (env_of default_config ring) ! 53 = 42 / 160 * pi"
proof -
  have "lower_bounds (env_of default_config ring) ! 53 = fmod2pi (39 / 160 * pi)"
    by (simp add: lower_bounds_def ray_angles_def default_env_fields default_increment)
  also have "\<dots> = 39 / 160 * pi" by (rule fmod2pi_pi) simp_all
  finally show "lower_bounds (env_of default_config ring) ! 53 = 39 / 160 * pi" .
  have "upper_bounds (env_of default_config ring) ! 53 = fmod2pi (42 / 160 * pi)"
    by (simp add: upper_bounds_def ray_angles_def default_env_fields default_increment)
  also have "\<dots> = 42 / 160 * pi" by (rule fmod2pi_pi) simp_all
  finally show "upper_bounds (env_of default_config ring) ! 53 = 42 / 160 * pi" .
qed

lemma default_bounds_52:
  "lower_bounds (env_of default_config ring) ! 52 = 36 / 160 * pi"
  "upper_bounds (env_of default_config ring) ! 52 = 39 / 160 * pi"
proof -
  have "lower_bounds (env_of default_config ring) ! 52 = fmod2pi (36 / 160 * pi)"
    by (simp add: lower_bounds_def ray_angles_def default_env_fields default_increment)
  also have "\<dots> = 36 / 160 * pi" by (rule fmod2pi_pi) simp_all
  finally show "lower_bounds (env_of default_config ring) ! 52 = 36 / 160 * pi" .
  have "upper_bounds (env_of default_config ring) ! 52 = fmod2pi (39 / 160 * pi)"
    by (simp add: upper_bounds_def ray_angles_def default_env_fields default_increment)
  also have "\<dots> = 39 / 160 * pi" by (rule fmod2pi_pi) simp_all
  finally show "upper_bounds (env_of default_config ring) ! 52 = 39 / 160 * pi" .
qed

lemma default_edge_directions:
  "agent_edge_directions (env_of default_config square_walls) =
     [277 / 160 * pi, 37 / 160 * pi, 117 / 160 * pi, 197 / 160 * pi]"
proof -
  have "agent_edge_directions (env_of default_config square_walls) =
      map (\<lambda>x. fmod2pi (x - 3 * pi / 160)) (map (find_angle (0, 0)) (butlast square_walls))"
    by (simp add: agent_edge_directions_def default_env_fields default_increment comp_def)
  also have "\<dots> = [fmod2pi (277 / 160 * pi), fmod2pi (37 / 160 * pi),
       fmod2pi (117 / 160 * pi), fmod2pi (197 / 160 * pi)]"
    unfolding square_find_angle by simp
  also have "\<dots> = [277 / 160 * pi, 37 / 160 * pi, 117 / 160 * pi, 197 / 160 * pi]"
  proof -
    have "fmod2pi (277 / 160 * pi) = 277 / 160 * pi" "fmod2pi (37 / 160 * pi) = 37 / 160 * pi"
      "fmod2pi (117 / 160 * pi) = 117 / 160 * pi" "fmod2pi (197 / 160 * pi) = 197 / 160 * pi"
      by (rule fmod2pi_pi; simp)+
    then show ?thesis by (simp only:)
  qed
  finally show ?thesis .
qed

lemma default_edges_nth:
  assumes "k < 4"
  shows "edges (env_of default_config square_walls) ! 53 ! k \<longleftrightarrow>
           39 / 160 * pi < [277 / 160 * pi, 37 / 160 * pi, 117 / 160 * pi, 197 / 160 * pi] ! k
           \<and> [277 / 160 * pi, 37 / 160 * pi, 117 / 160 * pi, 197 / 160 * pi] ! k < 42 / 160 * pi"
    and "edges (env_of default_config square_walls) ! 52 ! k \<longleftrightarrow>
           36 / 160 * pi < [277 / 160 * pi, 37 / 160 * pi, 117 / 160 * pi, 197 / 160 * pi] ! k
           \<and> [277 / 160 * pi, 37 / 160 * pi, 117 / 160 * pi, 197 / 160 * pi] ! k < 39 / 160 * pi"
proof -
  have k: "k < length (walls (env_of default_config square_walls)) - 1"
    using assms by (simp add: default_env_fields square_walls_def)
  have w: "53 < snd (retina_dims (env_of default_config square_walls))"
    "52 < snd (retina_dims (env_of default_config square_walls))"
    by (simp_all add: default_env_fields)
  show "edges (env_of default_config square_walls) ! 53 ! k \<longleftrightarrow>
           39 / 160 * pi < [277 / 160 * pi, 37 / 160 * pi, 117 / 160 * pi, 197 / 160 * pi] ! k
           \<and> [277 / 160 * pi, 37 / 160 * pi, 117 / 160 * pi, 197 / 160 * pi] ! k < 42 / 160 * pi"
    unfolding edges_nth[OF w(1) k] default_bounds_53 default_edge_directions ..
  show "edges (env_of default_config square_walls) ! 52 ! k \<longleftrightarrow>
           36 / 160 * pi < [277 / 160 * pi, 37 / 160 * pi, 117 / 160 * pi, 197 / 160 * pi] ! k
           \<and> [277 / 160 * pi, 37 / 160 * pi, 117 / 160 * pi, 197 / 160 * pi] ! k < 39 / 160 * pi"
    unfolding edges_nth[OF w(2) k] default_bounds_52 default_edge_directions ..
qed

lemma less_4_cases: "k < (4::nat) \<Longrightarrow> k = 0 \<or> k = 1 \<or> k = 2 \<or> k = 3"
  by arith

subsection \<open>Concrete steps in the default arena\<close>


lemma one_column_fields:
  "agent_view_angle (env_of one_column_config ring) = pi"
  "retina_dims (env_of one_column_config ring) = (50, 1)"
  "agent_position (env_of one_column_config ring) = (0, 0)"
  "agent_direction (env_of one_column_config ring) = 0"
  "walls (env_of one_column_config ring) = ring"
  "wall_dist (env_of one_column_config ring) = 5"
  "wall_height (env_of one_column_config ring) = 1"
  "agent_height (env_of one_column_config ring) = 1 / 2"
  "agent_pov_dist (env_of one_column_config ring) = 1 / 2"
  "retina_scale (env_of one_column_config ring) = 8 / 1000"
  "retina_pov_horizon (env_of one_column_config ring) = 20"
  by (simp_all add: env_of_def one_column_config_def default_config_def)




lemma astype_int_sgn: "astype_int x = sgn x * \<lfloor>\<bar>x\<bar>\<rfloor>"
proof (cases "0 \<le> x")
  case True
  then show ?thesis by (cases "x = 0") (simp_all add: astype_int_def)
next
  case False
  then have "\<lceil>x\<rceil> = - \<lfloor>- x\<rfloor>" by (simp add: ceiling_def)
  with False show ?thesis by (simp add: astype_int_def)
qed


lemma step_raises:
  assumes W: "0 < snd (retina_dims s)"
    and miss: "\<not> list_all is_point (intersections (move s v d))"
  shows "snd (step s v d) = Inl GeometryError"
    and "retina (fst (step s v d)) = clear (retina s)"
proof -
  have Wm: "0 < snd (retina_dims (move s v d))" using W by (simp add: move_retina)
  note R = render_Inl[OF Wm distances_error[OF miss]]
  show "snd (step s v d) = Inl GeometryError" unfolding step_def by (rule R(1))
  show "retina (fst (step s v d)) = clear (retina s)"
    unfolding step_def R(2) by (simp add: move_retina)
qed

lemma one_column_rays:
  assumes "snd (retina_dims s) = 1"
  shows "intersections s =
     [exterior_intersection (walls s) (agent_position s)
        (ray_end s (agent_direction s))]"
  using assms by (simp add: intersections_def ray_angles_def angle_increment_def)




lemma ray_far_gen:
  fixes a :: real
  assumes a: "0 < a" "a < 100"
  shows "foldr (\<lambda>e g. geom_union (seg_inter (100, 0) (110, 0) (fst e) (snd e)) g)
           [((a, - a), (a, a)), ((a, a), (- a, a)), ((- a, a), (- a, - a)), ((- a, - a), (a, - a))] Empty
         = Empty"
proof -
  have t0: "pcross (psub (a, - a) (100, 0)) (psub (a, a) (a, - a)) / pcross (psub (110, 0) (100, 0)) (psub (a, a) (a, - a)) = (a - 100) / 10"
    using a by (simp add: pcross_def psub_def field_simps)
  have d0: "pcross (psub (110, 0) (100, 0)) (psub (a, a) (a, - a)) \<noteq> 0"
    using a by (simp add: pcross_def psub_def)
  have e0: "seg_inter (100, 0) (110, 0) (a, - a) (a, a) = Empty"
    unfolding seg_inter_cross[OF d0] t0 using a by simp
  have e1: "seg_inter (100, 0) (110, 0) (a, a) (- a, a) = Empty"
    using a by (intro seg_inter_parallel) (simp_all add: pcross_def psub_def)
  have t2: "pcross (psub (- a, a) (100, 0)) (psub (- a, - a) (- a, a)) / pcross (psub (110, 0) (100, 0)) (psub (- a, - a) (- a, a)) = (- a - 100) / 10"
    using a by (simp add: pcross_def psub_def field_simps)
  have d2: "pcross (psub (110, 0) (100, 0)) (psub (- a, - a) (- a, a)) \<noteq> 0"
    using a by (simp add: pcross_def psub_def)
  have e2: "seg_inter (100, 0) (110, 0) (- a, a) (- a, - a) = Empty"
    unfolding seg_inter_cross[OF d2] t2 using a by simp
  have e3: "seg_inter (100, 0) (110, 0) (- a, - a) (a, - a) = Empty"
    using a by (intro seg_inter_parallel) (simp_all add: pcross_def psub_def)
  show ?thesis
    by (simp add: e0 e1 e2 e3)
qed

lemma ray_far: "exterior_intersection square_walls (100, 0) (110, 0) = Empty"
proof -
  have "0 < 5 * sqrt 2 / 2" "5 * sqrt 2 / 2 < 100" using sqrt2_bounds by simp_all
  from ray_far_gen[OF this] show ?thesis
    unfolding exterior_intersection_def square_edges by simp
qed



lemma one_column_env_fields:
  "agent_view_angle one_column_env = pi"
  "retina_dims one_column_env = (50, 1)"
  "agent_position one_column_env = (0, 0)"
  "agent_direction one_column_env = 0"
  "walls one_column_env = square_walls"
  "wall_dist one_column_env = 5"
  "wall_height one_column_env = 1"
  "agent_height one_column_env = 1 / 2"
  "agent_pov_dist one_column_env = 1 / 2"
  "retina_scale one_column_env = 8 / 1000"
  "retina_pov_horizon one_column_env = 20"
  unfolding one_column_env_def by (rule one_column_fields)+










lemma turned_env_run: "turned_env = run one_column_env [(0, pi / 2)]"
  by (simp add: turned_env_def)







lemma empty_not_points: "Empty \<in> set gs \<Longrightarrow> \<not> list_all is_point gs"
  unfolding list_all_iff by (rule notI, drule bspec, assumption) simp

lemma outside_env_fields:
  "retina_dims outside_env = (50, 1)" "agent_position outside_env = (100, 0)"
  "agent_direction outside_env = 0" "walls outside_env = square_walls"
  "wall_dist outside_env = 5"
  by (simp_all add: outside_env_def one_column_env_fields)

lemma outside_env_move: "move outside_env 0 0 = outside_env"
proof -
  have n: "new_position outside_env 0 0 = (100, 0)"
    by (simp add: new_position_def padd_def pscale_def outside_env_fields)
  have "\<not> contains square_walls (100, 0)"
    unfolding square_contains using sqrt2_bounds by simp
  then have "move outside_env 0 0 = outside_env\<lparr>agent_direction := fmod2pi 0\<rparr>"
    by (simp add: move_def n outside_env_fields)
  moreover have "fmod2pi 0 = 0" by (rule fmod2pi_id) simp_all
  ultimately show ?thesis using outside_env_fields(3) by simp
qed

lemma outside_env_rays: "intersections outside_env = [Empty]"
  by (simp add: one_column_rays outside_env_fields ray_end_def max_fov_distance_def padd_def ray_far)

lemma init_succeeds:
  assumes "3 \<le> num_walls cfg"
  shows "init cfg = Inr (env_of cfg (map (wall_corner cfg) ([0..<nat (num_walls cfg)] @ [0])))"
proof -
  let ?n = "num_walls cfg"
  let ?w = "2 * pi / of_int ?n"
  have ne: "[0..<nat ?n] \<noteq> []" using assms by simp
  have hd: "hd [0..<nat ?n] = 0" using assms by (simp add: hd_upt)
  have wa: "wall_angles ?n = Inr (map (\<lambda>i. ?w * of_nat i - ?w / 2) ([0..<nat ?n] @ [0]))"
    using assms ne by (simp add: wall_angles_def Let_def hd_map hd comp_def)
  let ?cs = "map (\<lambda>a. (wall_dist cfg * cos a, wall_dist cfg * sin a))
               (map (\<lambda>i. ?w * of_nat i - ?w / 2) ([0..<nat ?n] @ [0]))"
  have cs: "?cs = map (wall_corner cfg) ([0..<nat ?n] @ [0])"
    by (simp add: wall_corner_def)
  let ?ring = "map (wall_corner cfg) ([0..<nat ?n] @ [0])"
  have "hd ?ring = last ?ring"
    using assms by (simp add: hd_map hd_upt hd_append upt_conv_Cons)
  then have cr: "close_ring ?ring = ?ring" by (simp only: close_ring_def if_True simp_thms)
  have len: "\<not> length ?ring < 4" using assms by simp
  have "Polygon ?ring = Inr ?ring"
    unfolding Polygon_def cr using len by (simp only: if_False)
  then have "Polygon ?cs = Inr ?ring" by (simp only: cs)
  then show ?thesis
    unfolding init_def wa by (simp add: env_of_def)
qed





subsection \<open>A ray from inside a convex ring meets it in one point\<close>













subsection \<open>The walls are a convex ring inside their circumcircle\<close>























subsection \<open>Every ray of a reachable state meets the walls\<close>





section \<open>The claims\<close>

text \<open>
  Claim C1.  Starting from the state that \<open>init\<close> constructs (position at the origin,
  walls at a non-zero distance), after every sequence of calls of \<open>step\<close> the walls
  contain the position of the agent; and a call commits the proposed position exactly
  when the walls contain it, keeping the previous position otherwise.
\<close>

theorem containment_invariant:
  assumes "init cfg = Inr s0" and "wall_dist cfg \<noteq> 0"
  shows "contains (walls (run s0 cs)) (agent_position (run s0 cs))
       \<and> agent_position (fst (step s speed direction)) =
           (if contains (walls s) (new_position s speed direction)
            then new_position s speed direction else agent_position s)"
proof
  have "contains (walls s0) (agent_position s0)"
    using init_contains_origin[OF assms] init_Inr(3)[OF assms(1)] by simp
  then show "contains (walls (run s0 cs)) (agent_position (run s0 cs))"
    by (rule run_contains)
  show "agent_position (fst (step s speed direction)) =
           (if contains (walls s) (new_position s speed direction)
            then new_position s speed direction else agent_position s)"
    by (simp add: step_position move_def Let_def)
qed

text \<open>
  The default arena, one call \<open>step(0.015, 0.01)\<close>, and a call whose proposed position
  \<open>(1, 0)\<close> is committed.
\<close>

theorem containment_invariant_witness:
  "init default_config = Inr (env_of default_config square_walls)
   \<and> wall_dist default_config \<noteq> 0
   \<and> contains (walls (run (env_of default_config square_walls) [(3 / 200, 1 / 100)]))
        (agent_position (run (env_of default_config square_walls) [(3 / 200, 1 / 100)]))
   \<and> agent_position (fst (step (env_of default_config square_walls) 1 0)) = (1, 0)"
proof -
  have d: "wall_dist default_config \<noteq> 0" by (simp add: default_config_def)
  have c: "contains square_walls (1, 0)"
    unfolding square_contains by (intro conjI) (use sqrt2_bounds in linarith)+
  have n: "new_position (env_of default_config square_walls) 1 0 = (1, 0)"
    by (simp add: new_position_def new_direction_def env_of_simps padd_def pscale_def)
  show ?thesis
    using containment_invariant[OF default_init d, of "[(3 / 200, 1 / 100)]"
        "env_of default_config square_walls" 1 0] default_init d c n
    by (simp add: env_of_simps)
qed




text \<open>
  Claim C10.  In a state reached from the constructed one, a proposed position that lies
  exactly on the boundary of the walls is rejected, and the position after the call is
  strictly inside the walls, not on their boundary.
\<close>

theorem boundary_is_rejected:
  assumes "init cfg = Inr s0" and "wall_dist cfg \<noteq> 0" and "s = run s0 cs"
    and "on_boundary (walls s) (new_position s speed direction)"
  shows "agent_position (fst (step s speed direction)) = agent_position s
       \<and> contains (walls (fst (step s speed direction))) (agent_position (fst (step s speed direction)))
       \<and> \<not> on_boundary (walls (fst (step s speed direction)))
             (agent_position (fst (step s speed direction)))"
proof -
  have "contains (walls s0) (agent_position s0)"
    using init_contains_origin[OF assms(1,2)] init_Inr(3)[OF assms(1)] by simp
  then have "contains (walls s) (agent_position s)"
    unfolding assms(3) by (rule run_contains)
  then have c: "contains (walls (fst (step s speed direction)))
       (agent_position (fst (step s speed direction)))"
    unfolding step_walls step_position using move_contains by (simp add: move_walls)
  have "\<not> contains (walls s) (new_position s speed direction)"
    using assms(4) by (rule on_boundary_not_contains)
  then have "agent_position (fst (step s speed direction)) = agent_position s"
    unfolding step_position by (simp add: move_rejected)
  with c on_boundary_not_contains show ?thesis by blast
qed

text \<open>
  The default arena with a speed equal to the distance of the wall that faces the agent.
\<close>

theorem boundary_is_rejected_witness:
  "init default_config = Inr (env_of default_config square_walls)
   \<and> wall_dist default_config \<noteq> 0
   \<and> env_of default_config square_walls = run (env_of default_config square_walls) []
   \<and> on_boundary (walls (env_of default_config square_walls))
       (new_position (env_of default_config square_walls) (5 * sqrt 2 / 2) 0)
   \<and> agent_position (fst (step (env_of default_config square_walls) (5 * sqrt 2 / 2) 0)) = (0, 0)"
proof -
  have d: "wall_dist default_config \<noteq> 0" by (simp add: default_config_def)
  have r: "env_of default_config square_walls = run (env_of default_config square_walls) []"
    by simp
  have n: "new_position (env_of default_config square_walls) (5 * sqrt 2 / 2) 0 = (5 * sqrt 2 / 2, 0)"
    by (simp add: new_position_def new_direction_def env_of_simps padd_def pscale_def)
  have b: "on_boundary (walls (env_of default_config square_walls))
       (new_position (env_of default_config square_walls) (5 * sqrt 2 / 2) 0)"
    unfolding n env_of_simps on_boundary_def square_edges
    by (simp add: on_segment_def left_of_def pcross_def pdot_def psub_def)
  show ?thesis
    using boundary_is_rejected[OF default_init d r b] default_init d b
    by (simp add: env_of_simps)
qed

text \<open>
  Claim C3 says that the bearing of the corner itself is compared with the slice of a
  column.  In the default arena, seen from the origin, the bearing \<open>pi / 4\<close> of corner 1
  lies in the slice of column 53, but \<open>step\<close> does not mark column 53 for that corner,
  nor for any other.
\<close>

theorem corner_bearing_counterexample:
  "spec_corner (env_of default_config square_walls) 53 1
   \<and> \<not> edges (env_of default_config square_walls) ! 53 ! 1
   \<and> 53 \<notin> set (edges_in_retina (env_of default_config square_walls))"
proof (intro conjI)
  have "find_angle (0, 0) (square_walls ! 1) = pi / 4"
    using find_angle_corners(2)[of "5 * sqrt 2 / 2"] by (simp add: square_walls_def)
  moreover have "39 / 160 * pi < pi / 4" "pi / 4 < 42 / 160 * pi" by simp_all
  ultimately show "spec_corner (env_of default_config square_walls) 53 1"
    unfolding spec_corner_def default_bounds_53 default_env_fields by (simp only: simp_thms)
  show "\<not> edges (env_of default_config square_walls) ! 53 ! 1"
    by (simp add: default_edges_nth(1))
  have "\<not> edges (env_of default_config square_walls) ! 53 ! k" if "k < 4" for k
    using less_4_cases[OF that] by (auto simp: default_edges_nth(1))
  then show "53 \<notin> set (edges_in_retina (env_of default_config square_walls))"
    by (simp add: in_edges_in_retina default_env_fields square_walls_def)
qed

text \<open>
  Claim C3, amended.  The angle compared with the slice of column \<open>i\<close> is the bearing of
  the corner lowered by one angle increment and reduced modulo \<open>2 * pi\<close>: the entry of
  \<open>edges\<close> for column \<open>i\<close> and corner \<open>k\<close> holds exactly when that angle lies strictly
  between the lower and the upper bound of the column, and then the column is among the
  corner columns.
\<close>

theorem corner_bearing_shifted:
  assumes "i < snd (retina_dims s)" and "k < length (walls s) - 1"
  shows "(edges s ! i ! k \<longleftrightarrow>
            lower_bounds s ! i < fmod2pi (find_angle (agent_position s) (walls s ! k) - angle_increment s)
            \<and> fmod2pi (find_angle (agent_position s) (walls s ! k) - angle_increment s) < upper_bounds s ! i)
       \<and> (edges s ! i ! k \<longrightarrow> i \<in> set (edges_in_retina s))"
proof -
  have "agent_edge_directions s ! k
      = fmod2pi (find_angle (agent_position s) (walls s ! k) - angle_increment s)"
    using assms(2) by (simp add: agent_edge_directions_def nth_butlast)
  then show ?thesis
    using edges_nth[OF assms] in_edges_in_retina[of i s] assms by auto
qed

text \<open>
  In the default arena the lowered bearing of corner 1 falls into column 52.
\<close>

theorem corner_bearing_shifted_witness:
  "52 < snd (retina_dims (env_of default_config square_walls))
   \<and> 1 < length (walls (env_of default_config square_walls)) - 1
   \<and> edges (env_of default_config square_walls) ! 52 ! 1
   \<and> fmod2pi (find_angle (agent_position (env_of default_config square_walls))
        (walls (env_of default_config square_walls) ! 1)
        - angle_increment (env_of default_config square_walls)) = 37 / 160 * pi
   \<and> 52 \<in> set (edges_in_retina (env_of default_config square_walls))"
proof -
  have a: "52 < snd (retina_dims (env_of default_config square_walls))"
    by (simp add: default_env_fields)
  have b: "1 < length (walls (env_of default_config square_walls)) - 1"
    by (simp add: default_env_fields square_walls_def)
  have e: "edges (env_of default_config square_walls) ! 52 ! 1"
    by (simp add: default_edges_nth(2))
  have d: "agent_edge_directions (env_of default_config square_walls) ! 1 = 37 / 160 * pi"
    by (simp only: default_edge_directions nth_Cons_Suc nth_Cons_0 One_nat_def)
  have f: "agent_edge_directions (env_of default_config square_walls) ! 1
      = fmod2pi (find_angle (agent_position (env_of default_config square_walls))
        (walls (env_of default_config square_walls) ! 1)
        - angle_increment (env_of default_config square_walls))"
    using b by (simp add: agent_edge_directions_def nth_butlast)
  show ?thesis
    using corner_bearing_shifted[OF a b] a b e d f by simp
qed



text \<open>
  Claim C8 says that a ray without intersection is treated as if it met the walls at
  \<open>max_fov_distance\<close>.  With the position set to \<open>(100, 0)\<close>, outside the walls, the
  only ray has no intersection and the call raises instead of returning a buffer.
\<close>

theorem ray_miss_counterexample:
  "intersections (move outside_env 0 0) = [Empty]
   \<and> snd (step outside_env 0 0) = Inl GeometryError"
proof -
  have i: "intersections (move outside_env 0 0) = [Empty]"
    by (simp add: outside_env_move outside_env_rays)
  have w: "0 < snd (retina_dims outside_env)" by (simp add: outside_env_fields)
  have "\<not> list_all is_point (intersections (move outside_env 0 0))"
    by (simp add: i)
  from step_raises(1)[OF w this] i show ?thesis by simp
qed

text \<open>
  Claim C8, amended.  There is no far clip: when a ray has no intersection with the
  walls, \<open>step\<close> raises and returns no buffer; the motion has been carried out and the
  retina is left cleared.
\<close>

theorem ray_miss_raises:
  assumes "0 < snd (retina_dims s)"
    and "Empty \<in> set (intersections (move s speed direction))"
  shows "snd (step s speed direction) = Inl GeometryError
       \<and> retina (fst (step s speed direction)) = clear (retina s)
       \<and> agent_position (fst (step s speed direction)) = agent_position (move s speed direction)
       \<and> agent_direction (fst (step s speed direction)) = agent_direction (move s speed direction)"
  using step_raises[OF assms(1) empty_not_points[OF assms(2)]]
  by (simp add: step_position step_direction)

text \<open>
  The state outside the walls again, with a direction change that is rejected.
\<close>

theorem ray_miss_raises_witness:
  "0 < snd (retina_dims outside_env)
   \<and> Empty \<in> set (intersections (move outside_env 0 (1 / 2)))
   \<and> snd (step outside_env 0 (1 / 2)) = Inl GeometryError
   \<and> agent_position (fst (step outside_env 0 (1 / 2))) = (100, 0)"
proof -
  have w: "0 < snd (retina_dims outside_env)" by (simp add: outside_env_fields)
  have n: "new_position outside_env 0 (1 / 2) = (100, 0)"
    by (simp add: new_position_def padd_def pscale_def outside_env_fields)
  have c: "\<not> contains square_walls (100, 0)"
    unfolding square_contains using sqrt2_bounds by simp
  have "fmod2pi 0 = 0" by (rule fmod2pi_id) simp_all
  then have m: "move outside_env 0 (1 / 2) = outside_env"
    using c outside_env_fields(3) by (simp add: move_def n outside_env_fields)
  have e: "Empty \<in> set (intersections (move outside_env 0 (1 / 2)))"
    by (simp add: m outside_env_rays)
  show ?thesis
    using ray_miss_raises[OF w e] w e by (simp add: m outside_env_fields)
qed

text \<open>
  Claim C7 says that a non-positive scale makes the construction fail.  The construction
  with \<open>retina_scale = -1\<close> succeeds and stores the value.
\<close>

theorem init_validation_counterexample:
  "init (default_config\<lparr>retina_scale := - 1\<rparr>)
     = Inr (env_of (default_config\<lparr>retina_scale := - 1\<rparr>) square_walls)
   \<and> retina_scale (env_of (default_config\<lparr>retina_scale := - 1\<rparr>) square_walls) = - 1"
proof
  show "init (default_config\<lparr>retina_scale := - 1\<rparr>)
     = Inr (env_of (default_config\<lparr>retina_scale := - 1\<rparr>) square_walls)"
    by (rule init_square) (simp_all add: default_config_def)
  show "retina_scale (env_of (default_config\<lparr>retina_scale := - 1\<rparr>) square_walls) = - 1"
    by (simp add: env_of_def)
qed

text \<open>
  Claim C7, amended.  The construction checks nothing: with at least three walls it
  succeeds whatever the distance, height and scale parameters are, and stores them as
  given.
\<close>

theorem init_unvalidated:
  assumes "3 \<le> num_walls cfg"
  shows "init cfg = Inr (env_of cfg (map (wall_corner cfg) ([0..<nat (num_walls cfg)] @ [0])))
       \<and> wall_dist (env_of cfg ring) = wall_dist cfg
       \<and> wall_height (env_of cfg ring) = wall_height cfg
       \<and> retina_scale (env_of cfg ring) = retina_scale cfg
       \<and> agent_height (env_of cfg ring) = agent_height cfg
       \<and> agent_pov_dist (env_of cfg ring) = agent_pov_dist cfg"
  using init_succeeds[OF assms] by (simp add: env_of_def)

text \<open>
  A negative wall distance, a wall height and a retina scale of zero.
\<close>

theorem init_unvalidated_witness:
  "3 \<le> num_walls (default_config\<lparr>wall_dist := - 5, wall_height := 0, retina_scale := 0\<rparr>)
   \<and> init (default_config\<lparr>wall_dist := - 5, wall_height := 0, retina_scale := 0\<rparr>)
      = Inr (env_of (default_config\<lparr>wall_dist := - 5, wall_height := 0, retina_scale := 0\<rparr>)
          (map (wall_corner (default_config\<lparr>wall_dist := - 5, wall_height := 0, retina_scale := 0\<rparr>))
             [0, 1, 2, 3, 0]))"
proof -
  have n: "3 \<le> num_walls (default_config\<lparr>wall_dist := - 5, wall_height := 0, retina_scale := 0\<rparr>)"
    by (simp add: default_config_def)
  have u: "[0..<nat (num_walls (default_config\<lparr>wall_dist := - 5, wall_height := 0, retina_scale := 0\<rparr>))] @ [0]
      = [0, 1, 2, 3, 0]"
    by (simp add: default_config_def upt_4)
  show ?thesis
    using init_unvalidated[OF n] n unfolding u by simp
qed







end
